theory Spec2Isabelle
  imports Complex_Main
begin

section \<open>The milestone progression engine of the UserProgress component\<close>

text \<open>
  The component \<open>UserProgress\<close> derives, inside one \<open>useMemo\<close> callback, the next mentor
  call of a candidate from the fetched \<open>UserStatus\<close> record and the call numbers of the
  already scheduled calls. The callback is modelled here as the function \<open>useMemo_body\<close>,
  and once more, with the places where it could raise written out, as \<open>useMemo_callback\<close>;
  the click handler \<open>handleBookCall\<close> is modelled as a function that returns the effects
  it performs, in order.

  The texts produced by \<open>getMessage\<close> (the field \<open>dynamicMessage\<close>) are presentation only
  and are left out of the model; every other field the callback reads or writes is kept.
\<close>

subsection \<open>JavaScript values and truthiness\<close>

text \<open>
  \<open>status[key]\<close> yields a boolean, a string, \<open>null\<close>, or \<open>undefined\<close> for a key the object
  does not have. The source tests such values by truthiness only.
\<close>

datatype js_value = JSBool bool | JSString string | JSNull | JSUndefined

fun truthy :: "js_value \<Rightarrow> bool" where
  "truthy (JSBool b) = b"
| "truthy (JSString s) = (s \<noteq> [])"
| "truthy JSNull = False"
| "truthy JSUndefined = False"

text \<open>A field of type \<open>string | null\<close> is a \<open>string option\<close>.\<close>

fun nullable :: "string option \<Rightarrow> js_value" where
  "nullable None = JSNull"
| "nullable (Some s) = JSString s"

text \<open>\<open>Array.prototype.includes\<close> on a list of numbers.\<close>

definition includes_num :: "int list \<Rightarrow> int \<Rightarrow> bool" where
  "includes_num xs x = (x \<in> set xs)"

subsection \<open>The data model\<close>

record UserStatus =
  id_field :: string
  orientation :: bool
  resumeRebuilding :: bool
  eligibleForFirstMentorCall :: bool
  firstMentorCallCompletedAt :: "string option"
  resumeConfirmed :: bool
  portfolioBuildingAndConfirmed :: bool
  eligibleForSecondMentorCall :: bool
  secondMentorCallCompletedAt :: "string option"
  techDistributionAndExtension :: bool
  eligibleForThirdMentorCall :: bool
  thirdMentorCallCompletedAt :: "string option"
  cheatSheetBuiltOut :: bool
  hasAppliedEnoughJobs :: bool
  eligibleForFourthMentorCall :: bool
  fourthMentorCallCompletedAt :: "string option"
  finalReview :: bool
  eligibleForFifthMentorCall :: bool
  fifthMentorCallCompletedAt :: "string option"

record ScheduledCall =
  callNumber :: int
  scheduledAt :: string
  googleMeetLink :: "string option"

datatype icon = Rocket | FileText | Award | Zap | BookOpen | Target

record milestone =
  key :: string
  label :: string
  icon :: icon

text \<open>
  One entry of the array \<open>calls\<close>. The field \<open>requiredMilestones\<close> exists only on the
  objects built by two of the three selecting branches of the scan, so it is optional:
  \<open>None\<close> is the absent property.
\<close>

record call =
  number :: int
  call_label :: string
  eligible :: bool
  completed :: "string option"
  required :: "milestone list"
  requiredMilestones :: "milestone list option"

text \<open>One entry of \<open>currentMilestones\<close>, the displayed checklist.\<close>

record checklist_item =
  item_id :: string
  item_label :: string
  item_icon :: icon
  item_completed :: bool

text \<open>The object returned by the \<open>useMemo\<close> callback.\<close>

record next_call_view =
  currentMilestones :: "checklist_item list"
  nextMentorCall :: "call option"
  progressPercentage :: real
  isEligible :: bool
  isBooked :: bool
  isScheduled :: bool

text \<open>Property access \<open>status[k]\<close> for a string key \<open>k\<close>.\<close>

definition status_get :: "UserStatus \<Rightarrow> string \<Rightarrow> js_value" where
  "status_get status k =
    (if k = ''id'' then JSString (id_field status)
     else if k = ''orientation'' then JSBool (orientation status)
     else if k = ''resumeRebuilding'' then JSBool (resumeRebuilding status)
     else if k = ''eligibleForFirstMentorCall'' then JSBool (eligibleForFirstMentorCall status)
     else if k = ''firstMentorCallCompletedAt'' then nullable (firstMentorCallCompletedAt status)
     else if k = ''resumeConfirmed'' then JSBool (resumeConfirmed status)
     else if k = ''portfolioBuildingAndConfirmed''
       then JSBool (portfolioBuildingAndConfirmed status)
     else if k = ''eligibleForSecondMentorCall'' then JSBool (eligibleForSecondMentorCall status)
     else if k = ''secondMentorCallCompletedAt''
       then nullable (secondMentorCallCompletedAt status)
     else if k = ''techDistributionAndExtension''
       then JSBool (techDistributionAndExtension status)
     else if k = ''eligibleForThirdMentorCall'' then JSBool (eligibleForThirdMentorCall status)
     else if k = ''thirdMentorCallCompletedAt'' then nullable (thirdMentorCallCompletedAt status)
     else if k = ''cheatSheetBuiltOut'' then JSBool (cheatSheetBuiltOut status)
     else if k = ''hasAppliedEnoughJobs'' then JSBool (hasAppliedEnoughJobs status)
     else if k = ''eligibleForFourthMentorCall'' then JSBool (eligibleForFourthMentorCall status)
     else if k = ''fourthMentorCallCompletedAt''
       then nullable (fourthMentorCallCompletedAt status)
     else if k = ''finalReview'' then JSBool (finalReview status)
     else if k = ''eligibleForFifthMentorCall'' then JSBool (eligibleForFifthMentorCall status)
     else if k = ''fifthMentorCallCompletedAt'' then nullable (fifthMentorCallCompletedAt status)
     else JSUndefined)"

subsection \<open>The constant tables\<close>

definition MILESTONES :: "milestone list" where
  "MILESTONES =
    [\<lparr>key = ''orientation'', label = ''Orientation Complete'', icon = Rocket\<rparr>,
     \<lparr>key = ''resumeRebuilding'', label = ''Resume Rebuilt'', icon = FileText\<rparr>,
     \<lparr>key = ''resumeConfirmed'', label = ''Resume Confirmed'', icon = Award\<rparr>,
     \<lparr>key = ''portfolioBuildingAndConfirmed'', label = ''Portfolio Ready'', icon = Award\<rparr>,
     \<lparr>key = ''techDistributionAndExtension'', label = ''Tech Stack Defined'', icon = Zap\<rparr>,
     \<lparr>key = ''cheatSheetBuiltOut'', label = ''Cheat Sheet Created'', icon = BookOpen\<rparr>,
     \<lparr>key = ''hasAppliedEnoughJobs'', label = ''Jobs Applied'', icon = Target\<rparr>]"

definition calls :: "UserStatus \<Rightarrow> call list" where
  "calls status =
    [\<lparr>number = 1, call_label = ''First Mentor Call'',
      eligible = eligibleForFirstMentorCall status,
      completed = firstMentorCallCompletedAt status,
      required =
        [\<lparr>key = ''orientation'', label = ''Orientation Complete'', icon = Rocket\<rparr>,
         \<lparr>key = ''resumeRebuilding'', label = ''Resume Rebuilt'', icon = FileText\<rparr>],
      requiredMilestones = None\<rparr>,
     \<lparr>number = 2, call_label = ''Second Mentor Call'',
      eligible = eligibleForSecondMentorCall status,
      completed = secondMentorCallCompletedAt status,
      required =
        [\<lparr>key = ''resumeConfirmed'', label = ''Resume Confirmed'', icon = Award\<rparr>,
         \<lparr>key = ''portfolioBuildingAndConfirmed'', label = ''Portfolio Ready'',
          icon = Award\<rparr>],
      requiredMilestones = None\<rparr>,
     \<lparr>number = 3, call_label = ''Third Mentor Call'',
      eligible = eligibleForThirdMentorCall status,
      completed = thirdMentorCallCompletedAt status,
      required =
        [\<lparr>key = ''techDistributionAndExtension'', label = ''Tech Stack Defined'',
          icon = Zap\<rparr>],
      requiredMilestones = None\<rparr>,
     \<lparr>number = 4, call_label = ''Fourth Mentor Call'',
      eligible = eligibleForFourthMentorCall status,
      completed = fourthMentorCallCompletedAt status,
      required =
        [\<lparr>key = ''cheatSheetBuiltOut'', label = ''Cheat Sheet Created'', icon = BookOpen\<rparr>,
         \<lparr>key = ''hasAppliedEnoughJobs'', label = ''Jobs Applied'', icon = Target\<rparr>],
      requiredMilestones = None\<rparr>,
     \<lparr>number = 5, call_label = ''Fifth Mentor Call'',
      eligible = eligibleForFifthMentorCall status,
      completed = fifthMentorCallCompletedAt status,
      required = [],
      requiredMilestones = None\<rparr>]"

subsection \<open>The scan and the fallback\<close>

text \<open>\<open>call.required.every(r => status[r.key])\<close>.\<close>

definition allRequiredDone :: "UserStatus \<Rightarrow> call \<Rightarrow> bool" where
  "allRequiredDone status c = list_all (\<lambda>r. truthy (status_get status (key r))) (required c)"

text \<open>
  The \<open>for (const call of calls)\<close> loop. \<open>None\<close> is \<open>nextCall\<close> still being \<open>null\<close> when
  the loop ends. Each \<open>continue\<close> is the recursive call; so is the end of the loop body,
  which is reached when none of the three selecting conditions holds.
\<close>

fun scan_loop :: "UserStatus \<Rightarrow> int list \<Rightarrow> call list \<Rightarrow> call option" where
  "scan_loop status scheduledCallNumbers [] = None"
| "scan_loop status scheduledCallNumbers (c # rest) =
    (if truthy (nullable (completed c)) then scan_loop status scheduledCallNumbers rest
     else if includes_num scheduledCallNumbers (number c)
       then scan_loop status scheduledCallNumbers rest
     else if eligible c \<and> length (required c) = 0 then Some c
     else if eligible c \<and> allRequiredDone status c
       then Some (c\<lparr>requiredMilestones := Some []\<rparr>)
     else if \<not> eligible c \<and> length (required c) > 0
       then Some (c\<lparr>requiredMilestones := Some (required c), eligible := False\<rparr>)
     else scan_loop status scheduledCallNumbers rest)"

text \<open>
  \<open>nextCall\<close> after the fallback
  \<open>calls.find(c => !c.completed && !scheduledCallNumbers.includes(c.number)) || calls[0]\<close>.
  The array literal has five entries, so \<open>calls[0]\<close> is its first entry.
\<close>

definition selectNextCall :: "UserStatus \<Rightarrow> int list \<Rightarrow> call" where
  "selectNextCall status scheduledCallNumbers =
    (case scan_loop status scheduledCallNumbers (calls status) of
       Some c \<Rightarrow> c
     | None \<Rightarrow>
        (case find (\<lambda>c. \<not> truthy (nullable (completed c))
                        \<and> \<not> includes_num scheduledCallNumbers (number c)) (calls status) of
           Some c \<Rightarrow> c
         | None \<Rightarrow> calls status ! 0))"

text \<open>
  \<open>(nextCall as any).requiredMilestones || nextCall?.required || []\<close>: an array is truthy
  even when it is empty, so the first operand wins whenever the property is present.
\<close>

definition displayedMilestones :: "call \<Rightarrow> milestone list" where
  "displayedMilestones c =
    (case requiredMilestones c of Some ms \<Rightarrow> ms | None \<Rightarrow> required c)"

definition annotate :: "UserStatus \<Rightarrow> milestone \<Rightarrow> checklist_item" where
  "annotate status m =
    \<lparr>item_id = key m, item_label = label m, item_icon = icon m,
     item_completed = truthy (status_get status (key m))\<rparr>"

definition completedMilestones :: "UserStatus \<Rightarrow> nat" where
  "completedMilestones status =
    length (filter (\<lambda>m. truthy (status_get status (key m))) MILESTONES)"

text \<open>
  The body of the \<open>useMemo\<close> callback. \<open>nextCall?.number || 0\<close> is written out;
  \<open>requiredMilestones?.length === 0\<close> is false when the property is absent.
  The percentage is a JavaScript double in the source and an exact real here.
\<close>

definition useMemo_body :: "UserStatus option \<Rightarrow> int list \<Rightarrow> next_call_view" where
  "useMemo_body status_opt scheduledCallNumbers =
    (case status_opt of
       None \<Rightarrow>
        \<lparr>currentMilestones = [], nextMentorCall = None, progressPercentage = 0,
         isEligible = False, isBooked = False, isScheduled = False\<rparr>
     | Some status \<Rightarrow>
        (let nextCall = selectNextCall status scheduledCallNumbers in
         \<lparr>currentMilestones = map (annotate status) (displayedMilestones nextCall),
          nextMentorCall = Some nextCall,
          progressPercentage =
            (real (completedMilestones status) / real (length MILESTONES)) * 100,
          isEligible =
            (eligible nextCall \<and>
             (case requiredMilestones nextCall of
                None \<Rightarrow> False | Some ms \<Rightarrow> length ms = 0)),
          isBooked = truthy (nullable (completed nextCall)),
          isScheduled =
            includes_num scheduledCallNumbers
              (if number nextCall = 0 then 0 else number nextCall)\<rparr>))"

text \<open>\<open>scheduledCalls.map(c => c.callNumber)\<close>, then the callback.\<close>

definition computeNextCall :: "UserStatus \<Rightarrow> ScheduledCall list \<Rightarrow> next_call_view" where
  "computeNextCall status scheduledCalls =
    useMemo_body (Some status) (map callNumber scheduledCalls)"

subsection \<open>The book-call handler\<close>

text \<open>
  \<open>handleBookCall\<close> is an async function with effects. Its model returns the list of the
  effects it performs, in order. What the outside world answers is an argument: the
  outcome of obtaining the token (the dynamic import or \<open>getIdToken\<close> may throw; the token
  may be \<open>undefined\<close>), the outcome of \<open>fetch\<close> (it may throw), and the outcome of
  \<open>res.json()\<close>. A thrown error is \<open>Inl\<close> of its \<open>message\<close>. The arguments
  \<open>nextMentorCall\<close>, \<open>isEligible\<close> and \<open>booking\<close> are the values the \<open>useCallback\<close> closure
  captured. \<open>loadStatus\<close> catches its own errors, so it is one effect that never throws.
\<close>

datatype effect =
    SetBooking bool
  | ToastError string
  | ToastSuccess string
  | ConsoleError string
  | PostBookCall string int
  | LoadStatus

record response =
  ok :: bool
  json_message :: "string + string option"

record book_env =
  token_result :: "string + string option"
  fetch_result :: "string + response"

text \<open>\<open>x || 'Failed to book call'\<close> for a string or \<open>undefined\<close>.\<close>

definition or_failed :: "string option \<Rightarrow> string" where
  "or_failed m =
    (case m of None \<Rightarrow> ''Failed to book call''
     | Some s \<Rightarrow> if s = [] then ''Failed to book call'' else s)"

text \<open>The \<open>catch\<close> block.\<close>

definition catch_block :: "string \<Rightarrow> effect list" where
  "catch_block msg = [ConsoleError msg, ToastError (or_failed (Some msg))]"

definition handleBookCall :: "call option \<Rightarrow> bool \<Rightarrow> bool \<Rightarrow> book_env \<Rightarrow> effect list" where
  "handleBookCall nextMentorCall_v isEligible_v booking env =
    (case nextMentorCall_v of
       None \<Rightarrow> []
     | Some c \<Rightarrow>
        if \<not> isEligible_v \<or> booking then []
        else
          [SetBooking True] @
          (case token_result env of
             Inl msg \<Rightarrow> catch_block msg
           | Inr None \<Rightarrow> [ToastError ''Not authenticated'']
           | Inr (Some token) \<Rightarrow>
              if token = [] then [ToastError ''Not authenticated'']
              else
                [PostBookCall token (number c)] @
                (case fetch_result env of
                   Inl msg \<Rightarrow> catch_block msg
                 | Inr res \<Rightarrow>
                    if ok res then [ToastSuccess ''Call booked successfully!'', LoadStatus]
                    else
                      (case json_message res of
                         Inl msg \<Rightarrow> catch_block msg
                       | Inr m \<Rightarrow> [ToastError (or_failed m)]))) @
          [SetBooking False])"

text \<open>
  A click on the component: the handler runs with what the last render computed from the
  component's state \<open>status\<close>, \<open>booking\<close> and its property \<open>scheduledCalls\<close>.
\<close>

definition click_book :: "UserStatus option \<Rightarrow> ScheduledCall list \<Rightarrow> bool \<Rightarrow> book_env \<Rightarrow> effect list" where
  "click_book status_opt scheduledCalls booking env =
    (let v = useMemo_body status_opt (map callNumber scheduledCalls)
     in handleBookCall (nextMentorCall v) (isEligible v) booking env)"

subsection \<open>The callback with its failure points written out\<close>

text \<open>
  In the source the variable \<open>nextCall\<close> starts as \<open>null\<close> and stays nullable after the
  fallback, as far as its type goes: \<open>find\<close> may return \<open>undefined\<close>, and so may
  \<open>calls[0]\<close> on an empty array. The lines that follow read it through \<open>nextCall?.\<close>,
  except \<open>(nextCall as any).requiredMilestones\<close>, which raises a \<open>TypeError\<close> on
  \<open>null\<close> or \<open>undefined\<close>. \<open>useMemo_body\<close> above takes the value after the fallback
  to be a call. The model below does not: \<open>nextCall\<close> is a \<open>call option\<close>, and the result
  is either the error raised or the object returned. Its first component is the trace
  of effects; the callback calls no state setter, no \<open>fetch\<close>, no toast and no console
  function, so no path contributes an effect.
\<close>

datatype js_error = TypeError

definition first_entry :: "call list \<Rightarrow> call option" where
  "first_entry cs = (case cs of [] \<Rightarrow> None | c # _ \<Rightarrow> Some c)"

definition nextCall_after_fallback :: "UserStatus \<Rightarrow> int list \<Rightarrow> call option" where
  "nextCall_after_fallback status scheduledCallNumbers =
    (case scan_loop status scheduledCallNumbers (calls status) of
       Some c \<Rightarrow> Some c
     | None \<Rightarrow>
        (case find (\<lambda>c. \<not> truthy (nullable (completed c))
                        \<and> \<not> includes_num scheduledCallNumbers (number c)) (calls status) of
           Some c \<Rightarrow> Some c
         | None \<Rightarrow> first_entry (calls status)))"

definition useMemo_callback ::
  "UserStatus option \<Rightarrow> int list \<Rightarrow> effect list \<times> (js_error + next_call_view)" where
  "useMemo_callback status_opt scheduledCallNumbers =
    (case status_opt of
       None \<Rightarrow>
        ([], Inr \<lparr>currentMilestones = [], nextMentorCall = None, progressPercentage = 0,
                  isEligible = False, isBooked = False, isScheduled = False\<rparr>)
     | Some status \<Rightarrow>
        (case nextCall_after_fallback status scheduledCallNumbers of
           None \<Rightarrow> ([], Inl TypeError)
         | Some nextCall \<Rightarrow>
            ([], Inr
              \<lparr>currentMilestones = map (annotate status) (displayedMilestones nextCall),
               nextMentorCall = Some nextCall,
               progressPercentage =
                 (real (completedMilestones status) / real (length MILESTONES)) * 100,
               isEligible =
                 (eligible nextCall \<and>
                  (case requiredMilestones nextCall of
                     None \<Rightarrow> False | Some ms \<Rightarrow> length ms = 0)),
               isBooked = truthy (nullable (completed nextCall)),
               isScheduled =
                 includes_num scheduledCallNumbers
                   (if number nextCall = 0 then 0 else number nextCall)\<rparr>)))"

subsection \<open>Notions used to state the properties\<close>

text \<open>A timestamp field counts as set when the source's own test, truthiness, says so.\<close>

definition is_set :: "string option \<Rightarrow> bool" where
  "is_set t = truthy (nullable t)"

text \<open>
  A stage is selectable by the scan when it is neither completed nor scheduled and one
  of the three selecting conditions of the loop body holds.
\<close>

definition selectable :: "UserStatus \<Rightarrow> int list \<Rightarrow> call \<Rightarrow> bool" where
  "selectable status scheduledCallNumbers c =
    (\<not> is_set (completed c) \<and> \<not> includes_num scheduledCallNumbers (number c) \<and>
     ((eligible c \<and> required c = []) \<or>
      (eligible c \<and> allRequiredDone status c) \<or>
      (\<not> eligible c \<and> required c \<noteq> [])))"

text \<open>The object the scan assigns to \<open>nextCall\<close> when it selects the stage \<open>c\<close>.\<close>

definition selected_form :: "UserStatus \<Rightarrow> call \<Rightarrow> call" where
  "selected_form status c =
    (if eligible c \<and> required c = [] then c
     else if eligible c \<and> allRequiredDone status c then c\<lparr>requiredMilestones := Some []\<rparr>
     else c\<lparr>requiredMilestones := Some (required c), eligible := False\<rparr>)"

text \<open>The number of the seven flags of \<open>MILESTONES\<close> that are true.\<close>

definition milestonesTrueCount :: "UserStatus \<Rightarrow> nat" where
  "milestonesTrueCount status =
    length (filter (\<lambda>b. b)
      [orientation status, resumeRebuilding status, resumeConfirmed status,
       portfolioBuildingAndConfirmed status, techDistributionAndExtension status,
       cheatSheetBuiltOut status, hasAppliedEnoughJobs status])"

text \<open>Concrete inputs: a fresh candidate, and a timestamp.\<close>

definition fresh_status :: UserStatus where
  "fresh_status =
    \<lparr>id_field = ''u1'', orientation = False, resumeRebuilding = False,
     eligibleForFirstMentorCall = False, firstMentorCallCompletedAt = None,
     resumeConfirmed = False, portfolioBuildingAndConfirmed = False,
     eligibleForSecondMentorCall = False, secondMentorCallCompletedAt = None,
     techDistributionAndExtension = False,
     eligibleForThirdMentorCall = False, thirdMentorCallCompletedAt = None,
     cheatSheetBuiltOut = False, hasAppliedEnoughJobs = False,
     eligibleForFourthMentorCall = False, fourthMentorCallCompletedAt = None,
     finalReview = False,
     eligibleForFifthMentorCall = False, fifthMentorCallCompletedAt = None\<rparr>"

definition ts :: string where
  "ts = ''2025-01-15T10:00:00.000Z''"

definition eligible_unmet_status :: UserStatus where
  "eligible_unmet_status = fresh_status\<lparr>eligibleForFirstMentorCall := True\<rparr>"

text \<open>
  A candidate at the last stage: every milestone done, the first four calls held, the
  fifth unlocked. Then the same candidate after the fifth call, a candidate whose first
  stage is ready, and a backend that accepts the booking.
\<close>

definition final_stage_status :: UserStatus where
  "final_stage_status =
    \<lparr>id_field = ''u2'', orientation = True, resumeRebuilding = True,
     eligibleForFirstMentorCall = True, firstMentorCallCompletedAt = Some ts,
     resumeConfirmed = True, portfolioBuildingAndConfirmed = True,
     eligibleForSecondMentorCall = True, secondMentorCallCompletedAt = Some ts,
     techDistributionAndExtension = True,
     eligibleForThirdMentorCall = True, thirdMentorCallCompletedAt = Some ts,
     cheatSheetBuiltOut = True, hasAppliedEnoughJobs = True,
     eligibleForFourthMentorCall = True, fourthMentorCallCompletedAt = Some ts,
     finalReview = True,
     eligibleForFifthMentorCall = True, fifthMentorCallCompletedAt = None\<rparr>"

definition all_completed_status :: UserStatus where
  "all_completed_status = final_stage_status\<lparr>fifthMentorCallCompletedAt := Some ts\<rparr>"

definition stage1_ready_status :: UserStatus where
  "stage1_ready_status =
    fresh_status\<lparr>orientation := True, resumeRebuilding := True,
                 eligibleForFirstMentorCall := True\<rparr>"

definition online_env :: book_env where
  "online_env =
    \<lparr>token_result = Inr (Some ''token-1''),
     fetch_result = Inr \<lparr>ok = True, json_message = Inr None\<rparr>\<rparr>"

text \<open>
  A candidate whose second stage is marked eligible while its milestones are open, and
  one for whom this holds of the first four stages.
\<close>

definition second_eligible_unmet_status :: UserStatus where
  "second_eligible_unmet_status = fresh_status\<lparr>eligibleForSecondMentorCall := True\<rparr>"

definition stalled_status :: UserStatus where
  "stalled_status =
    fresh_status\<lparr>eligibleForFirstMentorCall := True, eligibleForSecondMentorCall := True,
                 eligibleForThirdMentorCall := True, eligibleForFourthMentorCall := True\<rparr>"

section \<open>Basic facts\<close>

subsection \<open>The scan loop\<close>

text \<open>One iteration of the loop, in terms of \<open>selectable\<close> and \<open>selected_form\<close>.\<close>

lemma scan_loop_Cons:
  "scan_loop st sch (c # cs) =
     (if selectable st sch c then Some (selected_form st c) else scan_loop st sch cs)"
  by (auto simp: selectable_def selected_form_def is_set_def allRequiredDone_def)

lemma scan_loop_SomeD:
  "scan_loop st sch cs = Some c \<Longrightarrow>
     \<exists>c0 \<in> set cs. selectable st sch c0 \<and> c = selected_form st c0"
proof (induction cs)
  case Nil
  then show ?case by simp
next
  case (Cons a cs)
  show ?case
  proof (cases "selectable st sch a")
    case True
    with Cons.prems have "c = selected_form st a"
      by (simp only: scan_loop_Cons if_True option.inject)
    with True show ?thesis by simp
  next
    case False
    with Cons.prems have "scan_loop st sch cs = Some c"
      by (simp only: scan_loop_Cons if_False)
    from Cons.IH [OF this] show ?thesis by auto
  qed
qed

lemma scan_loop_None_iff:
  "scan_loop st sch cs = None \<longleftrightarrow> (\<forall>c \<in> set cs. \<not> selectable st sch c)"
proof (induction cs)
  case Nil
  show ?case by simp
next
  case (Cons a cs)
  show ?case
    by (cases "selectable st sch a") (simp_all only: scan_loop_Cons Cons.IH if_True if_False list.set ball_simps insert_iff, simp_all)
qed

lemma scan_loop_first:
  "i < length cs \<Longrightarrow> selectable st sch (cs ! i) \<Longrightarrow> (\<forall>j<i. \<not> selectable st sch (cs ! j))
    \<Longrightarrow> scan_loop st sch cs = Some (selected_form st (cs ! i))"
proof (induction cs arbitrary: i)
  case Nil
  then show ?case by simp
next
  case (Cons c cs)
  show ?case
  proof (cases i)
    case 0
    with Cons.prems(2) have "selectable st sch c" by simp
    then show ?thesis using 0 by (simp only: scan_loop_Cons if_True nth_Cons_0)
  next
    case (Suc k)
    from Cons.prems(3) Suc have c: "\<not> selectable st sch c" by auto
    have k: "k < length cs" using Cons.prems(1) Suc by simp
    have sel: "selectable st sch (cs ! k)" using Cons.prems(2) Suc by simp
    have before: "\<forall>j<k. \<not> selectable st sch (cs ! j)"
    proof (intro allI impI)
      fix j assume "j < k"
      then have "Suc j < i" using Suc by simp
      with Cons.prems(3) have "\<not> selectable st sch ((c # cs) ! Suc j)" by blast
      then show "\<not> selectable st sch (cs ! j)" by simp
    qed
    have "scan_loop st sch (c # cs) = scan_loop st sch cs"
      using c by (simp only: scan_loop_Cons if_False)
    also have "\<dots> = Some (selected_form st (cs ! k))"
      using Cons.IH [OF k sel before] .
    finally show ?thesis using Suc by simp
  qed
qed

subsection \<open>The table of calls and the returned object\<close>

lemma length_calls: "length (calls st) = 5"
  by (simp add: calls_def)

lemma lt5_cases: "i < (5::nat) \<Longrightarrow> i = 0 \<or> i = 1 \<or> i = 2 \<or> i = 3 \<or> i = 4"
  by arith

lemma number_calls: "i < 5 \<Longrightarrow> number (calls st ! i) = int i + 1"
  by (drule lt5_cases) (auto simp: calls_def)

lemma status_get_flags:
  "status_get st ''orientation'' = JSBool (orientation st)"
  "status_get st ''resumeRebuilding'' = JSBool (resumeRebuilding st)"
  "status_get st ''resumeConfirmed'' = JSBool (resumeConfirmed st)"
  "status_get st ''portfolioBuildingAndConfirmed'' = JSBool (portfolioBuildingAndConfirmed st)"
  "status_get st ''techDistributionAndExtension'' = JSBool (techDistributionAndExtension st)"
  "status_get st ''cheatSheetBuiltOut'' = JSBool (cheatSheetBuiltOut st)"
  "status_get st ''hasAppliedEnoughJobs'' = JSBool (hasAppliedEnoughJobs st)"
  by (simp_all add: status_get_def)

lemma calls_fields:
  "map number (calls st) = [1, 2, 3, 4, 5]"
  "map completed (calls st) =
     [firstMentorCallCompletedAt st, secondMentorCallCompletedAt st,
      thirdMentorCallCompletedAt st, fourthMentorCallCompletedAt st,
      fifthMentorCallCompletedAt st]"
  "map eligible (calls st) =
     [eligibleForFirstMentorCall st, eligibleForSecondMentorCall st,
      eligibleForThirdMentorCall st, eligibleForFourthMentorCall st,
      eligibleForFifthMentorCall st]"
  "map requiredMilestones (calls st) = [None, None, None, None, None]"
  by (simp_all add: calls_def)

lemma requiredMilestones_in_calls: "c \<in> set (calls st) \<Longrightarrow> requiredMilestones c = None"
proof -
  assume "c \<in> set (calls st)"
  then have "requiredMilestones c \<in> set (map requiredMilestones (calls st))" by simp
  then show ?thesis by (simp only: calls_fields) simp
qed

lemma number_in_calls: "c \<in> set (calls st) \<Longrightarrow> 1 \<le> number c \<and> number c \<le> 5"
proof -
  assume "c \<in> set (calls st)"
  then have "number c \<in> set (map number (calls st))" by simp
  then show ?thesis by (simp only: calls_fields) auto
qed

lemma calls_0_in: "calls st ! 0 \<in> set (calls st)"
  by (rule nth_mem) (simp add: length_calls)

lemma selected_form_fields:
  "number (selected_form st c) = number c"
  "completed (selected_form st c) = completed c"
  "required (selected_form st c) = required c"
  "call_label (selected_form st c) = call_label c"
  by (simp_all add: selected_form_def)

lemma selectNextCall_cases:
  obtains
    (scan) c0 where "c0 \<in> set (calls st)" "selectable st sch c0"
      "scan_loop st sch (calls st) = Some (selected_form st c0)"
      "selectNextCall st sch = selected_form st c0"
  | (find) c0 where "c0 \<in> set (calls st)" "\<not> is_set (completed c0)"
      "\<not> includes_num sch (number c0)"
      "scan_loop st sch (calls st) = None"
      "selectNextCall st sch = c0"
  | (first) "scan_loop st sch (calls st) = None"
      "\<forall>c \<in> set (calls st). is_set (completed c) \<or> includes_num sch (number c)"
      "selectNextCall st sch = calls st ! 0"
proof (cases "scan_loop st sch (calls st)")
  case (Some c)
  from scan_loop_SomeD [OF Some] obtain c0 where
    "c0 \<in> set (calls st)" "selectable st sch c0" "c = selected_form st c0" by blast
  with Some show ?thesis by (intro scan) (simp_all add: selectNextCall_def)
next
  case None
  let ?P = "\<lambda>c. \<not> truthy (nullable (completed c)) \<and> \<not> includes_num sch (number c)"
  show ?thesis
  proof (cases "find ?P (calls st)")
    case (Some c0)
    then have "c0 \<in> set (calls st)" "?P c0"
      by (auto simp: find_Some_iff in_set_conv_nth)
    with None Some show ?thesis
      by (intro find [of c0]) (simp_all add: selectNextCall_def is_set_def)
  next
    case fNone: None
    then have "\<forall>c \<in> set (calls st). is_set (completed c) \<or> includes_num sch (number c)"
      by (auto simp: find_None_iff is_set_def)
    with None fNone show ?thesis
      by (intro first) (simp_all add: selectNextCall_def)
  qed
qed

lemma view_fields:
  "nextMentorCall (useMemo_body (Some st) sch) = Some (selectNextCall st sch)"
  "isBooked (useMemo_body (Some st) sch) = is_set (completed (selectNextCall st sch))"
  "isEligible (useMemo_body (Some st) sch) =
     (eligible (selectNextCall st sch) \<and> requiredMilestones (selectNextCall st sch) = Some [])"
  "isScheduled (useMemo_body (Some st) sch) = includes_num sch (number (selectNextCall st sch))"
  "currentMilestones (useMemo_body (Some st) sch) =
     map (annotate st) (displayedMilestones (selectNextCall st sch))"
  "progressPercentage (useMemo_body (Some st) sch) =
     (real (completedMilestones st) / real (length MILESTONES)) * 100"
  by (simp_all add: useMemo_body_def Let_def is_set_def split: option.splits)

lemma calls_0:
  "calls st ! 0 =
    \<lparr>number = 1, call_label = ''First Mentor Call'',
     eligible = eligibleForFirstMentorCall st,
     completed = firstMentorCallCompletedAt st,
     required =
       [\<lparr>key = ''orientation'', label = ''Orientation Complete'', icon = Rocket\<rparr>,
        \<lparr>key = ''resumeRebuilding'', label = ''Resume Rebuilt'', icon = FileText\<rparr>],
     requiredMilestones = None\<rparr>"
  by (simp add: calls_def)

lemma stage1_selected:
  assumes "selectable st sch (calls st ! 0)"
  shows "selectNextCall st sch = selected_form st (calls st ! 0)"
proof -
  have "scan_loop st sch (calls st) = Some (selected_form st (calls st ! 0))"
    by (rule scan_loop_first) (simp_all add: length_calls assms)
  then show ?thesis by (simp add: selectNextCall_def)
qed

lemma completed_in_calls:
  "c \<in> set (calls st) \<Longrightarrow>
     completed c \<in> {firstMentorCallCompletedAt st, secondMentorCallCompletedAt st,
       thirdMentorCallCompletedAt st, fourthMentorCallCompletedAt st,
       fifthMentorCallCompletedAt st}"
proof -
  assume "c \<in> set (calls st)"
  then have "completed c \<in> set (map completed (calls st))" by simp
  then show ?thesis by (simp only: calls_fields) simp
qed

lemma find_fallback_None:
  assumes "\<forall>c \<in> set (calls st). is_set (completed c) \<or> includes_num sch (number c)"
  shows "find (\<lambda>c. \<not> truthy (nullable (completed c)) \<and> \<not> includes_num sch (number c))
           (calls st) = None"
  using assms by (auto simp: find_None_iff is_set_def)

lemma booked_only_by_last_fallback:
  assumes "is_set (completed (selectNextCall st sch))"
  shows "scan_loop st sch (calls st) = None \<and>
     find (\<lambda>c. \<not> truthy (nullable (completed c)) \<and> \<not> includes_num sch (number c))
       (calls st) = None \<and>
     selectNextCall st sch = calls st ! 0"
proof (cases rule: selectNextCall_cases [of st sch])
  case (scan c0)
  with assms show ?thesis by (simp add: selected_form_fields selectable_def)
next
  case (find c0)
  with assms show ?thesis by simp
next
  case first
  then show ?thesis using find_fallback_None [of st sch] by simp
qed

lemma all_completed_selects_first:
  assumes "\<forall>c \<in> set (calls st). is_set (completed c)"
  shows "selectNextCall st sch = calls st ! 0"
proof (cases rule: selectNextCall_cases [of st sch])
  case (scan c0)
  with assms show ?thesis by (simp add: selectable_def)
next
  case (find c0)
  with assms show ?thesis by simp
next
  case first
  then show ?thesis by simp
qed

lemma calls_split: "calls st = calls st ! 0 # tl (calls st)"
  by (simp add: calls_def)

subsection \<open>Counting the milestone flags\<close>

lemma completedMilestones_count: "completedMilestones st = milestonesTrueCount st"
  by (simp add: completedMilestones_def MILESTONES_def milestonesTrueCount_def
      status_get_flags)

lemma length_MILESTONES: "length MILESTONES = 7"
  by (simp add: MILESTONES_def)

lemma count_true_mono:
  "list_all2 (\<lambda>a b. a \<longrightarrow> b) xs ys \<Longrightarrow>
     length (filter (\<lambda>b. b) xs) \<le> length (filter (\<lambda>b. b) ys)"
  by (induction rule: list_all2_induct) auto

subsection \<open>The callback with failure points, and the scheduled numbers as a set\<close>

lemma first_entry_calls: "first_entry (calls st) = Some (calls st ! 0)"
  by (simp add: first_entry_def calls_def)

lemma nextCall_after_fallback_eq:
  "nextCall_after_fallback st sch = Some (selectNextCall st sch)"
  by (simp add: nextCall_after_fallback_def selectNextCall_def first_entry_calls
      split: option.splits)

lemma useMemo_callback_eq:
  "useMemo_callback (Some st) sch = ([], Inr (useMemo_body (Some st) sch))"
  by (simp add: useMemo_callback_def nextCall_after_fallback_eq useMemo_body_def Let_def)

lemma includes_num_cong: "set sch = set sch' \<Longrightarrow> includes_num sch = includes_num sch'"
  by (simp add: includes_num_def fun_eq_iff)

lemma selectable_set_cong:
  "set sch = set sch' \<Longrightarrow> selectable st sch c = selectable st sch' c"
  by (simp add: selectable_def includes_num_cong [of sch sch'])

lemma scan_loop_set_cong:
  "set sch = set sch' \<Longrightarrow> scan_loop st sch cs = scan_loop st sch' cs"
  by (induction cs) (simp_all only: scan_loop.simps(1) scan_loop_Cons selectable_set_cong [of sch sch'])

lemma selectNextCall_set_cong:
  assumes "set sch = set sch'"
  shows "selectNextCall st sch = selectNextCall st sch'"
  unfolding selectNextCall_def scan_loop_set_cong [OF assms] includes_num_cong [OF assms] ..

lemma useMemo_body_set_cong:
  assumes "set sch = set sch'"
  shows "useMemo_body st_opt sch = useMemo_body st_opt sch'"
  unfolding useMemo_body_def selectNextCall_set_cong [OF assms] includes_num_cong [OF assms] ..

lemma all_lt5_calls:
  assumes "\<forall>k<5. P (calls st ! k)"
  shows "\<forall>c \<in> set (calls st). P c"
  using assms by (auto simp: in_set_conv_nth length_calls)

lemma find_first:
  "i < length cs \<Longrightarrow> P (cs ! i) \<Longrightarrow> (\<forall>j<i. \<not> P (cs ! j)) \<Longrightarrow> find P cs = Some (cs ! i)"
  by (simp add: find_Some_iff) blast

lemma all_lt5_iff: "(\<forall>k<(5::nat). P k) \<longleftrightarrow> P 0 \<and> P 1 \<and> P 2 \<and> P 3 \<and> P 4"
proof
  assume "\<forall>k<5. P k"
  then show "P 0 \<and> P 1 \<and> P 2 \<and> P 3 \<and> P 4" by simp
next
  assume a: "P 0 \<and> P 1 \<and> P 2 \<and> P 3 \<and> P 4"
  show "\<forall>k<5. P k"
  proof (intro allI impI)
    fix k :: nat assume "k < 5"
    from lt5_cases [OF this] a show "P k" by auto
  qed
qed

section \<open>Which stage the scan selects\<close>

text \<open>
  C1 (as stated, refuted). The claim says that the scan selects the first stage that is
  neither completed nor scheduled, whatever its eligibility and milestone state. For a
  candidate whose first stage is marked eligible while its milestones are still open,
  stage 1 is the first stage that is neither completed nor scheduled, yet none of the
  three selecting conditions holds for it: the loop body ends without a \<open>break\<close>, the
  scan goes on, and stage 2 is selected.
\<close>

theorem scan_continues_past_unmatched_stage:
  "\<not> is_set (completed (calls eligible_unmet_status ! 0)) \<and>
   \<not> includes_num [] (number (calls eligible_unmet_status ! 0)) \<and>
   map_option number (scan_loop eligible_unmet_status [] (calls eligible_unmet_status)) = Some 2 \<and>
   map_option number (nextMentorCall (computeNextCall eligible_unmet_status [])) = Some 2"
  by (simp add: eligible_unmet_status_def fresh_status_def calls_def is_set_def
      includes_num_def allRequiredDone_def status_get_def computeNextCall_def
      useMemo_body_def selectNextCall_def Let_def)

text \<open>
  C1 (amended). The scan selects the first stage, in ascending order, that is neither
  completed nor scheduled and meets one of the three selecting conditions (eligible with
  no required milestones; eligible with every required milestone true; not eligible with
  at least one required milestone), and it never selects a later one. Stages before it
  that are completed, scheduled, or meet none of the conditions are passed over. When
  the selected stage is not eligible, it is the working-toward stage: \<open>nextCall\<close> is the
  stage with \<open>requiredMilestones\<close> set to its non-empty \<open>required\<close> list, and the checklist
  is that list, each entry annotated with the current value of its flag.
\<close>

theorem scan_selects_first_selectable:
  assumes "i < 5"
    and "selectable status scheduledCallNumbers (calls status ! i)"
    and "\<forall>j<i. \<not> selectable status scheduledCallNumbers (calls status ! j)"
  shows "map_option number (scan_loop status scheduledCallNumbers (calls status))
       = Some (int i + 1) \<and>
     map_option number (nextMentorCall (useMemo_body (Some status) scheduledCallNumbers))
       = Some (int i + 1) \<and>
     (\<not> eligible (calls status ! i) \<longrightarrow>
        nextMentorCall (useMemo_body (Some status) scheduledCallNumbers) =
          Some ((calls status ! i)\<lparr>requiredMilestones := Some (required (calls status ! i)),
                                   eligible := False\<rparr>) \<and>
        required (calls status ! i) \<noteq> [] \<and>
        currentMilestones (useMemo_body (Some status) scheduledCallNumbers) =
          map (annotate status) (required (calls status ! i)))"
proof -
  let ?c = "calls status ! i"
  have scan: "scan_loop status scheduledCallNumbers (calls status)
      = Some (selected_form status ?c)"
    using assms by (intro scan_loop_first) (simp_all add: length_calls)
  have next_call: "selectNextCall status scheduledCallNumbers = selected_form status ?c"
    by (simp add: selectNextCall_def scan)
  have num: "number (selected_form status ?c) = int i + 1"
    using assms(1) by (simp add: selected_form_fields number_calls)
  have wt: "selected_form status ?c
        = ?c\<lparr>requiredMilestones := Some (required ?c), eligible := False\<rparr>
      \<and> required ?c \<noteq> []" if "\<not> eligible ?c"
    using that assms(2) by (simp add: selected_form_def selectable_def)
  show ?thesis
    using num wt by (simp add: scan view_fields next_call displayedMilestones_def)
qed

text \<open>
  The amended statement at a concrete input: the candidate above, where stage 1 is passed
  over and stage 2 is the first selectable stage.
\<close>

theorem scan_selects_first_selectable_witness:
  "(1::nat) < 5 \<and> selectable eligible_unmet_status [] (calls eligible_unmet_status ! 1) \<and>
   \<not> selectable eligible_unmet_status [] (calls eligible_unmet_status ! 0) \<and>
   map_option number (scan_loop eligible_unmet_status [] (calls eligible_unmet_status)) = Some 2 \<and>
   map item_id (currentMilestones (useMemo_body (Some eligible_unmet_status) [])) =
     [''resumeConfirmed'', ''portfolioBuildingAndConfirmed'']"
proof -
  have h1: "(1::nat) < 5" by simp
  have h2: "selectable eligible_unmet_status [] (calls eligible_unmet_status ! 1)"
    by (simp add: eligible_unmet_status_def fresh_status_def calls_def selectable_def
        is_set_def includes_num_def)
  have h3: "\<forall>j<1. \<not> selectable eligible_unmet_status [] (calls eligible_unmet_status ! j)"
    by (simp add: eligible_unmet_status_def fresh_status_def calls_def selectable_def
        is_set_def includes_num_def allRequiredDone_def status_get_def)
  have ne: "\<not> eligible (calls eligible_unmet_status ! 1)"
    by (simp add: eligible_unmet_status_def fresh_status_def calls_def)
  have req: "required (calls eligible_unmet_status ! 1) =
     [\<lparr>key = ''resumeConfirmed'', label = ''Resume Confirmed'', icon = Award\<rparr>,
      \<lparr>key = ''portfolioBuildingAndConfirmed'', label = ''Portfolio Ready'', icon = Award\<rparr>]"
    by (simp add: calls_def)
  from scan_selects_first_selectable [OF h1 h2 h3] ne req
  show ?thesis using h2 h3 by (simp add: annotate_def)
qed

section \<open>Totality of the computation\<close>

text \<open>
  C3. For every status object and every list of scheduled call numbers, the callback
  with its failure points written out performs no effect and raises no error: it
  returns the object that \<open>useMemo_body\<close> computes, and \<open>nextMentorCall\<close> in it is never
  \<open>null\<close> but one stage, numbered 1 to 5. Which stage is fixed by the two-level
  fallback: the first selectable stage in the form the scan gives it; if no stage is
  selectable, the first stage that is neither completed nor scheduled, as it stands in
  \<open>calls\<close>; if there is none, stage 1. The result depends on the scheduled numbers only
  as a set: neither their order nor repetitions change it. Only the \<open>null\<close> status of
  the guard at the top of the callback yields \<open>nextMentorCall = null\<close>, again without
  an error.
\<close>

theorem callback_total_and_determined:
  "fst (useMemo_callback (Some status) sch) = [] \<and>
   snd (useMemo_callback (Some status) sch) = Inr (useMemo_body (Some status) sch) \<and>
   snd (useMemo_callback (Some status) (map callNumber scheduledCalls))
     = Inr (computeNextCall status scheduledCalls) \<and>
   (\<exists>c. nextMentorCall (useMemo_body (Some status) sch) = Some c \<and>
        1 \<le> number c \<and> number c \<le> 5) \<and>
   (i < 5 \<and> selectable status sch (calls status ! i) \<and>
    (\<forall>j<i. \<not> selectable status sch (calls status ! j)) \<longrightarrow>
      nextMentorCall (useMemo_body (Some status) sch)
        = Some (selected_form status (calls status ! i))) \<and>
   ((\<forall>k<5. \<not> selectable status sch (calls status ! k)) \<and> i < 5 \<and>
    \<not> is_set (completed (calls status ! i)) \<and>
    \<not> includes_num sch (number (calls status ! i)) \<and>
    (\<forall>j<i. is_set (completed (calls status ! j)) \<or>
           includes_num sch (number (calls status ! j))) \<longrightarrow>
      nextMentorCall (useMemo_body (Some status) sch) = Some (calls status ! i)) \<and>
   ((\<forall>k<5. is_set (completed (calls status ! k)) \<or>
           includes_num sch (number (calls status ! k))) \<longrightarrow>
      nextMentorCall (useMemo_body (Some status) sch) = Some (calls status ! 0)) \<and>
   (set sch = set sch' \<longrightarrow>
      useMemo_callback (Some status) sch = useMemo_callback (Some status) sch') \<and>
   useMemo_callback None sch = ([], Inr (useMemo_body None sch)) \<and>
   nextMentorCall (useMemo_body None sch) = None"
proof -
  let ?n = "selectNextCall status sch"
  let ?open = "\<lambda>c. \<not> truthy (nullable (completed c)) \<and> \<not> includes_num sch (number c)"
  have range: "1 \<le> number ?n \<and> number ?n \<le> 5"
  proof (cases rule: selectNextCall_cases [of status sch])
    case (scan c0)
    with number_in_calls [of c0 status] show ?thesis by (simp add: selected_form_fields)
  next
    case (find c0)
    with number_in_calls [of c0 status] show ?thesis by simp
  next
    case first
    with number_in_calls [OF calls_0_in, of status] show ?thesis by simp
  qed
  have by_scan: "?n = selected_form status (calls status ! i)"
    if "i < 5" "selectable status sch (calls status ! i)"
      "\<forall>j<i. \<not> selectable status sch (calls status ! j)"
  proof -
    have "scan_loop status sch (calls status) = Some (selected_form status (calls status ! i))"
      using that by (intro scan_loop_first) (simp_all add: length_calls)
    then show ?thesis by (simp add: selectNextCall_def)
  qed
  have by_find: "?n = calls status ! i"
    if none: "\<forall>k<5. \<not> selectable status sch (calls status ! k)" and "i < 5"
      and "\<not> is_set (completed (calls status ! i))"
      and "\<not> includes_num sch (number (calls status ! i))"
      and "\<forall>j<i. is_set (completed (calls status ! j)) \<or>
           includes_num sch (number (calls status ! j))"
  proof -
    have "\<forall>c \<in> set (calls status). \<not> selectable status sch c"
      using none by (rule all_lt5_calls [of "\<lambda>c. \<not> selectable status sch c"])
    then have scan: "scan_loop status sch (calls status) = None"
      by (simp only: scan_loop_None_iff)
    have "find ?open (calls status) = Some (calls status ! i)"
      using that(2-5) by (intro find_first) (simp_all add: length_calls is_set_def)
    with scan show ?thesis by (simp add: selectNextCall_def)
  qed
  have by_first: "?n = calls status ! 0"
    if "\<forall>k<5. is_set (completed (calls status ! k)) \<or>
           includes_num sch (number (calls status ! k))"
  proof -
    have all: "\<forall>c \<in> set (calls status). is_set (completed c) \<or>
        includes_num sch (number c)"
      using that
      by (rule all_lt5_calls [of "\<lambda>c. is_set (completed c) \<or> includes_num sch (number c)"])
    then have "\<forall>c \<in> set (calls status). \<not> selectable status sch c"
      by (auto simp: selectable_def)
    then have scan: "scan_loop status sch (calls status) = None"
      by (simp only: scan_loop_None_iff)
    from scan find_fallback_None [OF all] show ?thesis by (simp add: selectNextCall_def)
  qed
  have pure: "useMemo_callback (Some status) sch = useMemo_callback (Some status) sch'"
    if "set sch = set sch'"
    using useMemo_body_set_cong [OF that, of "Some status"] by (simp add: useMemo_callback_eq)
  show ?thesis
  proof (intro conjI impI)
    show "fst (useMemo_callback (Some status) sch) = []"
      and "snd (useMemo_callback (Some status) sch) = Inr (useMemo_body (Some status) sch)"
      and "snd (useMemo_callback (Some status) (map callNumber scheduledCalls))
        = Inr (computeNextCall status scheduledCalls)"
      by (simp_all add: useMemo_callback_eq computeNextCall_def)
  next
    show "\<exists>c. nextMentorCall (useMemo_body (Some status) sch) = Some c \<and>
        1 \<le> number c \<and> number c \<le> 5"
      using range by (simp add: view_fields)
  next
    assume "i < 5 \<and> selectable status sch (calls status ! i) \<and>
      (\<forall>j<i. \<not> selectable status sch (calls status ! j))"
    then show "nextMentorCall (useMemo_body (Some status) sch)
        = Some (selected_form status (calls status ! i))"
      using by_scan by (simp add: view_fields)
  next
    assume "(\<forall>k<5. \<not> selectable status sch (calls status ! k)) \<and> i < 5 \<and>
      \<not> is_set (completed (calls status ! i)) \<and>
      \<not> includes_num sch (number (calls status ! i)) \<and>
      (\<forall>j<i. is_set (completed (calls status ! j)) \<or>
           includes_num sch (number (calls status ! j)))"
    then show "nextMentorCall (useMemo_body (Some status) sch) = Some (calls status ! i)"
      using by_find by (simp add: view_fields)
  next
    assume "\<forall>k<5. is_set (completed (calls status ! k)) \<or>
           includes_num sch (number (calls status ! k))"
    then show "nextMentorCall (useMemo_body (Some status) sch) = Some (calls status ! 0)"
      using by_first by (simp add: view_fields)
  next
    assume "set sch = set sch'"
    then show "useMemo_callback (Some status) sch = useMemo_callback (Some status) sch'"
      by (rule pure)
  next
    show "useMemo_callback None sch = ([], Inr (useMemo_body None sch))"
      and "nextMentorCall (useMemo_body None sch) = None"
      by (simp_all add: useMemo_callback_def useMemo_body_def)
  qed
qed

text \<open>
  The statement at concrete inputs, one for each of the three ways a stage is selected,
  and one for two lists with the same numbers.
\<close>

theorem callback_total_and_determined_witness:
  "selectable eligible_unmet_status [] (calls eligible_unmet_status ! 1) \<and>
   \<not> selectable eligible_unmet_status [] (calls eligible_unmet_status ! 0) \<and>
   map_option number (nextMentorCall (useMemo_body (Some eligible_unmet_status) [])) = Some 2 \<and>
   \<not> is_set (completed (calls stalled_status ! 0)) \<and>
   map_option number (nextMentorCall (useMemo_body (Some stalled_status) [])) = Some 1 \<and>
   is_set (completed (calls all_completed_status ! 0)) \<and>
   map_option number (nextMentorCall (useMemo_body (Some all_completed_status) [])) = Some 1 \<and>
   set [1, 1] = set [1::int] \<and>
   useMemo_callback (Some fresh_status) [1, 1] = useMemo_callback (Some fresh_status) [1] \<and>
   snd (useMemo_callback (Some fresh_status) [1])
     = Inr (useMemo_body (Some fresh_status) [1])"
proof -
  have a1: "selectable eligible_unmet_status [] (calls eligible_unmet_status ! 1)"
    by (simp add: eligible_unmet_status_def fresh_status_def calls_def selectable_def
        is_set_def includes_num_def)
  have a0: "\<not> selectable eligible_unmet_status [] (calls eligible_unmet_status ! 0)"
    by (simp add: eligible_unmet_status_def fresh_status_def calls_def selectable_def
        is_set_def includes_num_def allRequiredDone_def status_get_def)
  have a: "(1::nat) < 5 \<and> selectable eligible_unmet_status [] (calls eligible_unmet_status ! 1) \<and>
      (\<forall>j<1. \<not> selectable eligible_unmet_status [] (calls eligible_unmet_status ! j))"
    using a1 a0 by simp
  have n2: "number (selected_form eligible_unmet_status (calls eligible_unmet_status ! 1)) = 2"
    by (simp add: selected_form_fields calls_def)
  have b_none: "\<forall>k<5. \<not> selectable stalled_status [] (calls stalled_status ! k)"
    unfolding all_lt5_iff
    by (simp add: stalled_status_def fresh_status_def calls_def selectable_def
        is_set_def includes_num_def allRequiredDone_def status_get_def)
  have b_open: "\<not> is_set (completed (calls stalled_status ! 0))"
    "\<not> includes_num [] (number (calls stalled_status ! 0))"
    by (simp_all add: stalled_status_def fresh_status_def calls_def is_set_def includes_num_def)
  have b: "(\<forall>k<5. \<not> selectable stalled_status [] (calls stalled_status ! k)) \<and> (0::nat) < 5 \<and>
      \<not> is_set (completed (calls stalled_status ! 0)) \<and>
      \<not> includes_num [] (number (calls stalled_status ! 0)) \<and>
      (\<forall>j<0. is_set (completed (calls stalled_status ! j)) \<or>
           includes_num [] (number (calls stalled_status ! j)))"
    using b_none b_open by simp
  have c: "\<forall>k<5. is_set (completed (calls all_completed_status ! k)) \<or>
           includes_num [] (number (calls all_completed_status ! k))"
    unfolding all_lt5_iff
    by (simp add: all_completed_status_def final_stage_status_def ts_def calls_def is_set_def)
  have c0: "is_set (completed (calls all_completed_status ! 0))"
    by (simp add: all_completed_status_def final_stage_status_def ts_def calls_def is_set_def)
  have n1: "number (calls st ! 0) = 1" for st by (simp add: calls_0)
  have s: "set [1, 1] = set [1::int]" by simp
  note t = callback_total_and_determined
  have r1: "nextMentorCall (useMemo_body (Some eligible_unmet_status) [])
      = Some (selected_form eligible_unmet_status (calls eligible_unmet_status ! 1))"
    using t [of eligible_unmet_status "[]" "[]" 1 "[]"] a by blast
  have r2: "nextMentorCall (useMemo_body (Some stalled_status) []) = Some (calls stalled_status ! 0)"
    using t [of stalled_status "[]" "[]" 0 "[]"] b by blast
  have r3: "nextMentorCall (useMemo_body (Some all_completed_status) [])
      = Some (calls all_completed_status ! 0)"
    using t [of all_completed_status "[]" "[]" 0 "[]"] c by blast
  have r4: "useMemo_callback (Some fresh_status) [1, 1] = useMemo_callback (Some fresh_status) [1]"
    using t [of fresh_status "[1, 1]" "[]" 0 "[1]"] s by blast
  have r5: "snd (useMemo_callback (Some fresh_status) [1])
     = Inr (useMemo_body (Some fresh_status) [1])"
    using t [of fresh_status "[1]" "[]" 0 "[1]"] by blast
  show ?thesis
    using a1 a0 b_open(1) c0 s r4 r5 r1 r2 r3 n2 by (simp add: n1)
qed

section \<open>The first stage\<close>

text \<open>
  C6. When stage 1 is not completed, not among the scheduled calls, and not eligible,
  stage 1 is selected, the checklist is the two milestones of stage 1, orientation and
  resumeRebuilding in this order, each with the current value of its flag, and
  \<open>isEligible\<close> is false.
\<close>

theorem stage1_ineligible_working_toward:
  assumes "\<not> is_set (firstMentorCallCompletedAt status)"
    and "1 \<notin> set (map callNumber scheduledCalls)"
    and "\<not> eligibleForFirstMentorCall status"
  shows "map_option number (nextMentorCall (computeNextCall status scheduledCalls)) = Some 1 \<and>
     currentMilestones (computeNextCall status scheduledCalls) =
       [\<lparr>item_id = ''orientation'', item_label = ''Orientation Complete'',
         item_icon = Rocket, item_completed = orientation status\<rparr>,
        \<lparr>item_id = ''resumeRebuilding'', item_label = ''Resume Rebuilt'',
         item_icon = FileText, item_completed = resumeRebuilding status\<rparr>] \<and>
     \<not> isEligible (computeNextCall status scheduledCalls)"
proof -
  let ?sch = "map callNumber scheduledCalls"
  have sel: "selectable status ?sch (calls status ! 0)"
    using assms by (simp add: calls_0 selectable_def includes_num_def)
  show ?thesis
    using assms(3)
    by (simp add: computeNextCall_def view_fields stage1_selected [OF sel] calls_0
        selected_form_def displayedMilestones_def annotate_def status_get_flags)
qed

theorem stage1_ineligible_working_toward_witness:
  "\<not> is_set (firstMentorCallCompletedAt fresh_status) \<and>
   1 \<notin> set (map callNumber []) \<and>
   \<not> eligibleForFirstMentorCall fresh_status \<and>
   map_option number (nextMentorCall (computeNextCall fresh_status [])) = Some 1 \<and>
   map item_completed (currentMilestones (computeNextCall fresh_status [])) = [False, False] \<and>
   \<not> isEligible (computeNextCall fresh_status [])"
proof -
  have h1: "\<not> is_set (firstMentorCallCompletedAt fresh_status)"
    by (simp add: fresh_status_def is_set_def)
  have h2: "1 \<notin> set (map callNumber [])" by simp
  have h3: "\<not> eligibleForFirstMentorCall fresh_status"
    by (simp add: fresh_status_def)
  have flags: "\<not> orientation fresh_status" "\<not> resumeRebuilding fresh_status"
    by (simp_all add: fresh_status_def)
  from stage1_ineligible_working_toward [OF h1 h2 h3] flags
  show ?thesis using h1 h3 by simp
qed

text \<open>
  C7. When stage 1 is not completed, not among the scheduled calls, eligible, and both of
  its milestones, orientation and resumeRebuilding, are true, stage 1 is selected with an
  empty checklist and \<open>isEligible\<close> is true.
\<close>

theorem stage1_ready_to_book:
  assumes "\<not> is_set (firstMentorCallCompletedAt status)"
    and "1 \<notin> set (map callNumber scheduledCalls)"
    and "eligibleForFirstMentorCall status"
    and "orientation status" and "resumeRebuilding status"
  shows "map_option number (nextMentorCall (computeNextCall status scheduledCalls)) = Some 1 \<and>
     currentMilestones (computeNextCall status scheduledCalls) = [] \<and>
     isEligible (computeNextCall status scheduledCalls)"
proof -
  let ?sch = "map callNumber scheduledCalls"
  have all_done: "allRequiredDone status (calls status ! 0)"
    using assms(4,5) by (simp add: calls_0 allRequiredDone_def status_get_flags)
  have sel: "selectable status ?sch (calls status ! 0)"
    using assms(1,2,3) all_done by (simp add: selectable_def includes_num_def) (simp add: calls_0)
  have form: "selected_form status (calls status ! 0)
      = (calls status ! 0)\<lparr>requiredMilestones := Some []\<rparr>"
    using assms(3) all_done by (simp add: selected_form_def) (simp add: calls_0)
  show ?thesis
    by (simp add: computeNextCall_def view_fields stage1_selected [OF sel] form
        displayedMilestones_def) (simp add: calls_0 assms(3))
qed

theorem stage1_ready_to_book_witness:
  "\<not> is_set (firstMentorCallCompletedAt stage1_ready_status) \<and>
   1 \<notin> set (map callNumber []) \<and>
   eligibleForFirstMentorCall stage1_ready_status \<and>
   orientation stage1_ready_status \<and> resumeRebuilding stage1_ready_status \<and>
   map_option number (nextMentorCall (computeNextCall stage1_ready_status [])) = Some 1 \<and>
   currentMilestones (computeNextCall stage1_ready_status []) = [] \<and>
   isEligible (computeNextCall stage1_ready_status [])"
proof -
  have h1: "\<not> is_set (firstMentorCallCompletedAt stage1_ready_status)"
    by (simp add: stage1_ready_status_def fresh_status_def is_set_def)
  have h2: "1 \<notin> set (map callNumber [])" by simp
  have h3: "eligibleForFirstMentorCall stage1_ready_status"
    and h4: "orientation stage1_ready_status"
    and h5: "resumeRebuilding stage1_ready_status"
    by (simp_all add: stage1_ready_status_def)
  from stage1_ready_to_book [OF h1 h2 h3 h4 h5]
  show ?thesis using h1 h3 h4 h5 by simp
qed

text \<open>
  C8 (as stated, refuted). The claim says that with stage 1 scheduled the scan selects
  stage 2, or else the next stage that is neither completed nor scheduled. For a
  candidate whose second stage is marked eligible while its milestones are open, and
  with stage 1 scheduled, stage 2 is neither completed nor scheduled, yet it meets none
  of the three selecting conditions: the scan passes over it and selects stage 3.
\<close>

theorem scheduled_skip_passes_over_stage2:
  "\<not> is_set (firstMentorCallCompletedAt second_eligible_unmet_status) \<and>
   includes_num [1] 1 \<and>
   number (calls second_eligible_unmet_status ! 1) = 2 \<and>
   \<not> is_set (completed (calls second_eligible_unmet_status ! 1)) \<and>
   \<not> includes_num [1] (number (calls second_eligible_unmet_status ! 1)) \<and>
   map_option number
     (scan_loop second_eligible_unmet_status [1] (calls second_eligible_unmet_status)) = Some 3 \<and>
   map_option number
     (nextMentorCall (computeNextCall second_eligible_unmet_status
        [\<lparr>callNumber = 1, scheduledAt = ts, googleMeetLink = None\<rparr>])) = Some 3"
  by (simp add: second_eligible_unmet_status_def fresh_status_def calls_def is_set_def
      includes_num_def allRequiredDone_def status_get_def computeNextCall_def
      useMemo_body_def selectNextCall_def Let_def)

text \<open>
  C8 (amended). When stage 1 is not completed but its number is among the scheduled call
  numbers, the scan skips it: the result is that of the same loop run on stages 2 to 5,
  so the first of these that is selectable (neither completed nor scheduled, and meeting
  one of the three selecting conditions) is selected, stage 2 if it is. Whatever the scan
  selects is neither scheduled nor completed, and it is not stage 1.
\<close>

theorem scheduled_stage1_skipped:
  assumes "\<not> is_set (firstMentorCallCompletedAt status)"
    and "includes_num scheduledCallNumbers 1"
  shows "scan_loop status scheduledCallNumbers (calls status)
       = scan_loop status scheduledCallNumbers (tl (calls status)) \<and>
     (\<forall>c. scan_loop status scheduledCallNumbers (calls status) = Some c \<longrightarrow>
        number c \<noteq> 1 \<and> \<not> includes_num scheduledCallNumbers (number c) \<and>
        \<not> is_set (completed c)) \<and>
     (\<forall>i. 1 \<le> i \<and> i < 5 \<and> selectable status scheduledCallNumbers (calls status ! i) \<and>
        (\<forall>j. 1 \<le> j \<and> j < i \<longrightarrow> \<not> selectable status scheduledCallNumbers (calls status ! j))
        \<longrightarrow> scan_loop status scheduledCallNumbers (calls status)
              = Some (selected_form status (calls status ! i)) \<and>
            number (selected_form status (calls status ! i)) = int i + 1)"
proof -
  let ?sch = scheduledCallNumbers
  have not1: "\<not> selectable status ?sch (calls status ! 0)"
    using assms(2) by (simp add: selectable_def calls_0)
  have skip: "scan_loop status ?sch (calls status) = scan_loop status ?sch (tl (calls status))"
    by (subst calls_split) (simp only: scan_loop_Cons not1 if_False)
  have never: "number c \<noteq> 1 \<and> \<not> includes_num ?sch (number c) \<and> \<not> is_set (completed c)"
    if "scan_loop status ?sch (calls status) = Some c" for c
  proof -
    from scan_loop_SomeD [OF that] obtain c0 where
      "selectable status ?sch c0" "c = selected_form status c0" by blast
    then have "\<not> includes_num ?sch (number c)" "\<not> is_set (completed c)"
      by (simp_all add: selected_form_fields selectable_def)
    with assms(2) show ?thesis by auto
  qed
  have next_one: "scan_loop status ?sch (calls status)
        = Some (selected_form status (calls status ! i)) \<and>
      number (selected_form status (calls status ! i)) = int i + 1"
    if "1 \<le> i" "i < 5" "selectable status ?sch (calls status ! i)"
      "\<forall>j. 1 \<le> j \<and> j < i \<longrightarrow> \<not> selectable status ?sch (calls status ! j)" for i
  proof -
    have "\<forall>j<i. \<not> selectable status ?sch (calls status ! j)"
    proof (intro allI impI)
      fix j assume "j < i"
      show "\<not> selectable status ?sch (calls status ! j)"
      proof (cases "j = 0")
        case True
        with not1 show ?thesis by simp
      next
        case False
        with \<open>j < i\<close> that(4) show ?thesis by simp
      qed
    qed
    with that(2,3) have "scan_loop status ?sch (calls status)
        = Some (selected_form status (calls status ! i))"
      by (intro scan_loop_first) (simp_all add: length_calls)
    with that(2) show ?thesis by (simp add: selected_form_fields number_calls)
  qed
  from skip never next_one show ?thesis by blast
qed

theorem scheduled_stage1_skipped_witness:
  "\<not> is_set (firstMentorCallCompletedAt fresh_status) \<and> includes_num [1] 1 \<and>
   scan_loop fresh_status [1] (calls fresh_status)
     = scan_loop fresh_status [1] (tl (calls fresh_status)) \<and>
   map_option number (scan_loop fresh_status [1] (calls fresh_status)) = Some 2"
proof -
  have h1: "\<not> is_set (firstMentorCallCompletedAt fresh_status)"
    by (simp add: fresh_status_def is_set_def)
  have h2: "includes_num [1] 1" by (simp add: includes_num_def)
  have sel: "selectable fresh_status [1] (calls fresh_status ! 1)"
    by (simp add: fresh_status_def calls_def selectable_def is_set_def includes_num_def)
  from scheduled_stage1_skipped [OF h1 h2]
  have "scan_loop fresh_status [1] (calls fresh_status)
      = scan_loop fresh_status [1] (tl (calls fresh_status))"
    and "\<forall>i. 1 \<le> i \<and> i < 5 \<and> selectable fresh_status [1] (calls fresh_status ! i) \<and>
        (\<forall>j. 1 \<le> j \<and> j < i \<longrightarrow> \<not> selectable fresh_status [1] (calls fresh_status ! j))
        \<longrightarrow> scan_loop fresh_status [1] (calls fresh_status)
              = Some (selected_form fresh_status (calls fresh_status ! i)) \<and>
            number (selected_form fresh_status (calls fresh_status ! i)) = int i + 1"
    by blast+
  from this(1) this(2) [rule_format, of 1] sel h1 h2 show ?thesis by simp
qed

section \<open>The flags of the returned object\<close>

text \<open>
  C2. The claim says that \<open>isEligible\<close> is true exactly when the selected stage is
  eligible and its displayed checklist is empty, and in particular for an eligible
  stage 5, which has no required milestones. The first selecting branch of the scan
  assigns the stage as it is, without the property \<open>requiredMilestones\<close> that the second
  branch sets to the empty array and that \<open>isEligible\<close> tests. For the candidate at
  the last stage the computation selects stage 5, eligible, with an empty checklist,
  and \<open>isEligible\<close> is false.
\<close>

theorem final_stage_never_ready:
  "map_option number (nextMentorCall (computeNextCall final_stage_status [])) = Some 5 \<and>
   map_option eligible (nextMentorCall (computeNextCall final_stage_status [])) = Some True \<and>
   map_option required (nextMentorCall (computeNextCall final_stage_status [])) = Some [] \<and>
   currentMilestones (computeNextCall final_stage_status []) = [] \<and>
   \<not> isEligible (computeNextCall final_stage_status [])"
  by (simp add: final_stage_status_def ts_def calls_def
      includes_num_def allRequiredDone_def status_get_def computeNextCall_def
      useMemo_body_def selectNextCall_def Let_def displayedMilestones_def)

text \<open>
  C4. When all five completion times are set, stage 1 is selected and \<open>isBooked\<close> is
  true. In general \<open>isBooked\<close> says whether the completion time of the selected stage is
  set; and when it is true the scan has selected nothing, the search of the first
  fallback has found nothing, and the selected stage is \<open>calls[0]\<close>, stage 1.
\<close>

theorem all_completed_falls_back_to_stage1:
  "(is_set (firstMentorCallCompletedAt status) \<and> is_set (secondMentorCallCompletedAt status) \<and>
    is_set (thirdMentorCallCompletedAt status) \<and> is_set (fourthMentorCallCompletedAt status) \<and>
    is_set (fifthMentorCallCompletedAt status) \<longrightarrow>
      map_option number (nextMentorCall (computeNextCall status scheduledCalls)) = Some 1 \<and>
      isBooked (computeNextCall status scheduledCalls)) \<and>
   (isBooked (computeNextCall status scheduledCalls) =
      (\<exists>c. nextMentorCall (computeNextCall status scheduledCalls) = Some c \<and>
           is_set (completed c))) \<and>
   (isBooked (computeNextCall status scheduledCalls) \<longrightarrow>
      scan_loop status (map callNumber scheduledCalls) (calls status) = None \<and>
      find (\<lambda>c. \<not> truthy (nullable (completed c)) \<and>
                \<not> includes_num (map callNumber scheduledCalls) (number c)) (calls status) = None \<and>
      nextMentorCall (computeNextCall status scheduledCalls) = Some (calls status ! 0))"
proof -
  let ?sch = "map callNumber scheduledCalls"
  have a: "selectNextCall status ?sch = calls status ! 0"
    if "is_set (firstMentorCallCompletedAt status)" "is_set (secondMentorCallCompletedAt status)"
      "is_set (thirdMentorCallCompletedAt status)" "is_set (fourthMentorCallCompletedAt status)"
      "is_set (fifthMentorCallCompletedAt status)"
  proof (rule all_completed_selects_first, rule ballI)
    fix c assume "c \<in> set (calls status)"
    from completed_in_calls [OF this] that show "is_set (completed c)" by auto
  qed
  have b: "scan_loop status ?sch (calls status) = None \<and>
      find (\<lambda>c. \<not> truthy (nullable (completed c)) \<and> \<not> includes_num ?sch (number c))
        (calls status) = None \<and>
      selectNextCall status ?sch = calls status ! 0"
    if "isBooked (computeNextCall status scheduledCalls)"
    using that
    by (intro booked_only_by_last_fallback) (simp add: computeNextCall_def view_fields)
  have n: "number (calls status ! 0) = 1"
    and c: "completed (calls status ! 0) = firstMentorCallCompletedAt status"
    by (simp_all add: calls_0)
  show ?thesis
  proof (intro conjI impI)
    assume h: "is_set (firstMentorCallCompletedAt status) \<and>
      is_set (secondMentorCallCompletedAt status) \<and>
      is_set (thirdMentorCallCompletedAt status) \<and>
      is_set (fourthMentorCallCompletedAt status) \<and>
      is_set (fifthMentorCallCompletedAt status)"
    then have s: "selectNextCall status ?sch = calls status ! 0" using a by blast
    show "map_option number (nextMentorCall (computeNextCall status scheduledCalls)) = Some 1"
      by (simp add: computeNextCall_def view_fields s n)
    show "isBooked (computeNextCall status scheduledCalls)"
      using h by (simp add: computeNextCall_def view_fields s c)
  next
    show "isBooked (computeNextCall status scheduledCalls) =
      (\<exists>c. nextMentorCall (computeNextCall status scheduledCalls) = Some c \<and>
           is_set (completed c))"
      by (simp add: computeNextCall_def view_fields)
  next
    assume "isBooked (computeNextCall status scheduledCalls)"
    from b [OF this]
    show "scan_loop status ?sch (calls status) = None"
      and "find (\<lambda>c. \<not> truthy (nullable (completed c)) \<and> \<not> includes_num ?sch (number c))
        (calls status) = None"
      and "nextMentorCall (computeNextCall status scheduledCalls) = Some (calls status ! 0)"
      by (simp_all add: computeNextCall_def view_fields)
  qed
qed

theorem all_completed_falls_back_to_stage1_witness:
  "is_set (firstMentorCallCompletedAt all_completed_status) \<and>
   is_set (secondMentorCallCompletedAt all_completed_status) \<and>
   is_set (thirdMentorCallCompletedAt all_completed_status) \<and>
   is_set (fourthMentorCallCompletedAt all_completed_status) \<and>
   is_set (fifthMentorCallCompletedAt all_completed_status) \<and>
   map_option number (nextMentorCall (computeNextCall all_completed_status [])) = Some 1 \<and>
   isBooked (computeNextCall all_completed_status []) \<and>
   scan_loop all_completed_status (map callNumber []) (calls all_completed_status) = None"
proof -
  have h: "is_set (firstMentorCallCompletedAt all_completed_status)"
    "is_set (secondMentorCallCompletedAt all_completed_status)"
    "is_set (thirdMentorCallCompletedAt all_completed_status)"
    "is_set (fourthMentorCallCompletedAt all_completed_status)"
    "is_set (fifthMentorCallCompletedAt all_completed_status)"
    by (simp_all add: all_completed_status_def final_stage_status_def ts_def is_set_def)
  have n: "number (calls all_completed_status ! 0) = 1" by (simp add: calls_0)
  from all_completed_falls_back_to_stage1 [of all_completed_status "[]"] h n
  show ?thesis by simp
qed

text \<open>
  C9. Whenever \<open>isEligible\<close> is true, \<open>isScheduled\<close> and \<open>isBooked\<close> are false and the
  checklist is empty: the selected object was built by the second selecting branch of
  the scan, from a stage that is not completed, not scheduled, eligible, and has a
  non-empty list of required milestones, all of them true.
\<close>

theorem ready_excludes_scheduled_and_booked:
  assumes "isEligible (computeNextCall status scheduledCalls)"
  shows "\<not> isScheduled (computeNextCall status scheduledCalls) \<and>
     \<not> isBooked (computeNextCall status scheduledCalls) \<and>
     currentMilestones (computeNextCall status scheduledCalls) = [] \<and>
     (\<exists>c0. c0 \<in> set (calls status) \<and> \<not> is_set (completed c0) \<and>
        \<not> includes_num (map callNumber scheduledCalls) (number c0) \<and>
        eligible c0 \<and> required c0 \<noteq> [] \<and> allRequiredDone status c0 \<and>
        scan_loop status (map callNumber scheduledCalls) (calls status)
          = Some (c0\<lparr>requiredMilestones := Some []\<rparr>) \<and>
        nextMentorCall (computeNextCall status scheduledCalls)
          = Some (c0\<lparr>requiredMilestones := Some []\<rparr>))"
proof -
  let ?sch = "map callNumber scheduledCalls"
  let ?n = "selectNextCall status ?sch"
  from assms have el: "eligible ?n" and rm: "requiredMilestones ?n = Some []"
    by (simp_all add: computeNextCall_def view_fields)
  show ?thesis
  proof (cases rule: selectNextCall_cases [of status ?sch])
    case (scan c0)
    have none: "requiredMilestones c0 = None"
      using scan(1) by (rule requiredMilestones_in_calls)
    have branch: "eligible c0 \<and> required c0 \<noteq> [] \<and> allRequiredDone status c0"
      using el rm none unfolding scan(4) selected_form_def
      by (auto split: if_splits)
    then have form: "selected_form status c0 = c0\<lparr>requiredMilestones := Some []\<rparr>"
      by (simp add: selected_form_def)
    have skip: "\<not> is_set (completed c0)" "\<not> includes_num ?sch (number c0)"
      using scan(2) by (simp_all add: selectable_def)
    have view: "\<not> isScheduled (computeNextCall status scheduledCalls)"
      "\<not> isBooked (computeNextCall status scheduledCalls)"
      "currentMilestones (computeNextCall status scheduledCalls) = []"
      "nextMentorCall (computeNextCall status scheduledCalls)
          = Some (c0\<lparr>requiredMilestones := Some []\<rparr>)"
      using skip
      by (simp_all add: computeNextCall_def view_fields scan(4) form displayedMilestones_def)
    from scan(3) have "scan_loop status ?sch (calls status)
        = Some (c0\<lparr>requiredMilestones := Some []\<rparr>)"
      by (simp only: form)
    with view branch skip scan(1) show ?thesis by blast
  next
    case (find c0)
    with rm requiredMilestones_in_calls [of c0 status] show ?thesis by simp
  next
    case first
    with rm requiredMilestones_in_calls [OF calls_0_in, of status] show ?thesis by simp
  qed
qed

theorem ready_excludes_scheduled_and_booked_witness:
  "isEligible (computeNextCall stage1_ready_status []) \<and>
   \<not> isScheduled (computeNextCall stage1_ready_status []) \<and>
   \<not> isBooked (computeNextCall stage1_ready_status [])"
proof -
  have h: "isEligible (computeNextCall stage1_ready_status [])"
    by (simp add: stage1_ready_status_def fresh_status_def calls_def
      includes_num_def allRequiredDone_def status_get_def computeNextCall_def
      useMemo_body_def selectNextCall_def Let_def)
  from ready_excludes_scheduled_and_booked [OF h] h show ?thesis by blast
qed

section \<open>The progress percentage\<close>

text \<open>
  C5. The count the source takes over \<open>MILESTONES\<close> is the number of true flags among
  the seven milestone flags, and the progress percentage is that number divided by 7,
  times 100. It depends on nothing else: two inputs that agree
  on the seven flags have the same percentage, whatever the stages and the scheduled
  calls are (so computing it again on the same input gives the same value); and when
  every flag that is true in one status is true in another, the percentage of the
  first is at most that of the second.
\<close>

theorem progress_percentage_formula:
  "completedMilestones status = milestonesTrueCount status \<and>
   progressPercentage (computeNextCall status scheduledCalls)
     = real (milestonesTrueCount status) / 7 * 100 \<and>
   ((orientation status \<longrightarrow> orientation status') \<and>
    (resumeRebuilding status \<longrightarrow> resumeRebuilding status') \<and>
    (resumeConfirmed status \<longrightarrow> resumeConfirmed status') \<and>
    (portfolioBuildingAndConfirmed status \<longrightarrow> portfolioBuildingAndConfirmed status') \<and>
    (techDistributionAndExtension status \<longrightarrow> techDistributionAndExtension status') \<and>
    (cheatSheetBuiltOut status \<longrightarrow> cheatSheetBuiltOut status') \<and>
    (hasAppliedEnoughJobs status \<longrightarrow> hasAppliedEnoughJobs status') \<longrightarrow>
    progressPercentage (computeNextCall status scheduledCalls)
      \<le> progressPercentage (computeNextCall status' scheduledCalls')) \<and>
   (orientation status = orientation status' \<and>
    resumeRebuilding status = resumeRebuilding status' \<and>
    resumeConfirmed status = resumeConfirmed status' \<and>
    portfolioBuildingAndConfirmed status = portfolioBuildingAndConfirmed status' \<and>
    techDistributionAndExtension status = techDistributionAndExtension status' \<and>
    cheatSheetBuiltOut status = cheatSheetBuiltOut status' \<and>
    hasAppliedEnoughJobs status = hasAppliedEnoughJobs status' \<longrightarrow>
    progressPercentage (computeNextCall status scheduledCalls)
      = progressPercentage (computeNextCall status' scheduledCalls'))"
proof -
  have p: "progressPercentage (computeNextCall s scs) = real (milestonesTrueCount s) / 7 * 100"
    for s scs
    by (simp add: computeNextCall_def view_fields completedMilestones_count length_MILESTONES)
  have mono: "milestonesTrueCount status \<le> milestonesTrueCount status'"
    if "(orientation status \<longrightarrow> orientation status') \<and>
    (resumeRebuilding status \<longrightarrow> resumeRebuilding status') \<and>
    (resumeConfirmed status \<longrightarrow> resumeConfirmed status') \<and>
    (portfolioBuildingAndConfirmed status \<longrightarrow> portfolioBuildingAndConfirmed status') \<and>
    (techDistributionAndExtension status \<longrightarrow> techDistributionAndExtension status') \<and>
    (cheatSheetBuiltOut status \<longrightarrow> cheatSheetBuiltOut status') \<and>
    (hasAppliedEnoughJobs status \<longrightarrow> hasAppliedEnoughJobs status')"
    unfolding milestonesTrueCount_def
    using that by (intro count_true_mono) (simp only: list_all2_Cons list_all2_Nil simp_thms)
  have same: "milestonesTrueCount status = milestonesTrueCount status'"
    if "orientation status = orientation status' \<and>
    resumeRebuilding status = resumeRebuilding status' \<and>
    resumeConfirmed status = resumeConfirmed status' \<and>
    portfolioBuildingAndConfirmed status = portfolioBuildingAndConfirmed status' \<and>
    techDistributionAndExtension status = techDistributionAndExtension status' \<and>
    cheatSheetBuiltOut status = cheatSheetBuiltOut status' \<and>
    hasAppliedEnoughJobs status = hasAppliedEnoughJobs status'"
    unfolding milestonesTrueCount_def using that by (simp only:)
  show ?thesis
  proof (intro conjI impI)
    show "completedMilestones status = milestonesTrueCount status"
      by (rule completedMilestones_count)
  next
    show "progressPercentage (computeNextCall status scheduledCalls)
      = real (milestonesTrueCount status) / 7 * 100" by (rule p)
  next
    assume "(orientation status \<longrightarrow> orientation status') \<and>
    (resumeRebuilding status \<longrightarrow> resumeRebuilding status') \<and>
    (resumeConfirmed status \<longrightarrow> resumeConfirmed status') \<and>
    (portfolioBuildingAndConfirmed status \<longrightarrow> portfolioBuildingAndConfirmed status') \<and>
    (techDistributionAndExtension status \<longrightarrow> techDistributionAndExtension status') \<and>
    (cheatSheetBuiltOut status \<longrightarrow> cheatSheetBuiltOut status') \<and>
    (hasAppliedEnoughJobs status \<longrightarrow> hasAppliedEnoughJobs status')"
    from mono [OF this]
    show "progressPercentage (computeNextCall status scheduledCalls)
      \<le> progressPercentage (computeNextCall status' scheduledCalls')"
      by (simp add: p)
  next
    assume "orientation status = orientation status' \<and>
    resumeRebuilding status = resumeRebuilding status' \<and>
    resumeConfirmed status = resumeConfirmed status' \<and>
    portfolioBuildingAndConfirmed status = portfolioBuildingAndConfirmed status' \<and>
    techDistributionAndExtension status = techDistributionAndExtension status' \<and>
    cheatSheetBuiltOut status = cheatSheetBuiltOut status' \<and>
    hasAppliedEnoughJobs status = hasAppliedEnoughJobs status'"
    from same [OF this]
    show "progressPercentage (computeNextCall status scheduledCalls)
      = progressPercentage (computeNextCall status' scheduledCalls')"
      by (simp add: p)
  qed
qed

theorem progress_percentage_formula_witness:
  "progressPercentage (computeNextCall fresh_status []) = 0 \<and>
   progressPercentage (computeNextCall stage1_ready_status []) = 200 / 7 \<and>
   progressPercentage (computeNextCall fresh_status [])
     \<le> progressPercentage (computeNextCall stage1_ready_status [])"
proof -
  have c0: "milestonesTrueCount fresh_status = 0"
    by (simp add: milestonesTrueCount_def fresh_status_def)
  have c2: "milestonesTrueCount stage1_ready_status = 2"
    by (simp add: milestonesTrueCount_def stage1_ready_status_def fresh_status_def)
  have imp: "\<not> orientation fresh_status" "\<not> resumeRebuilding fresh_status"
    "\<not> resumeConfirmed fresh_status" "\<not> portfolioBuildingAndConfirmed fresh_status"
    "\<not> techDistributionAndExtension fresh_status" "\<not> cheatSheetBuiltOut fresh_status"
    "\<not> hasAppliedEnoughJobs fresh_status"
    by (simp_all add: fresh_status_def)
  from progress_percentage_formula [of fresh_status "[]" stage1_ready_status "[]"]
    progress_percentage_formula [of stage1_ready_status "[]" stage1_ready_status "[]"]
  show ?thesis using imp by (simp add: c0 c2)
qed

section \<open>Booking a call\<close>

text \<open>
  C10. The handler issues the booking request only when a next call is selected,
  \<open>isEligible\<close> is true and the \<open>booking\<close> flag, which is true while a request is in
  flight, is false; the request carries the number of the selected call. When the guard
  fails the handler performs no effect at all: no request, no state update. The same
  holds for a click on the component, where the handler runs with the values the
  engine computed.
\<close>

theorem book_call_guarded:
  "(PostBookCall token n \<in> set (handleBookCall nextMentorCall_v isEligible_v booking env) \<longrightarrow>
      isEligible_v \<and> \<not> booking \<and> (\<exists>c. nextMentorCall_v = Some c \<and> n = number c)) \<and>
   (nextMentorCall_v = None \<or> \<not> isEligible_v \<or> booking \<longrightarrow>
      handleBookCall nextMentorCall_v isEligible_v booking env = []) \<and>
   (PostBookCall token n \<in> set (click_book status_opt scheduledCalls booking env) \<longrightarrow>
      isEligible (useMemo_body status_opt (map callNumber scheduledCalls)) \<and> \<not> booking \<and>
      map_option number (nextMentorCall (useMemo_body status_opt (map callNumber scheduledCalls)))
        = Some n)"
proof -
  have guard: "handleBookCall nmc e b env = []" if "nmc = None \<or> \<not> e \<or> b" for nmc e b
    using that by (auto simp: handleBookCall_def split: option.splits)
  have post: "e \<and> \<not> b \<and> (\<exists>c. nmc = Some c \<and> n = number c)"
    if "PostBookCall token n \<in> set (handleBookCall nmc e b env)" for nmc e b
  proof (cases nmc)
    case None
    with that guard [of nmc e b] show ?thesis by simp
  next
    case (Some c)
    have eb: "e \<and> \<not> b"
    proof (rule ccontr)
      assume "\<not> (e \<and> \<not> b)"
      then have "handleBookCall nmc e b env = []" by (intro guard) blast
      with that show False by simp
    qed
    with that Some have "n = number c"
      by (auto simp: handleBookCall_def catch_block_def split: sum.splits option.splits if_splits)
    with eb Some show ?thesis by simp
  qed
  show ?thesis
  proof (intro conjI impI)
    assume "PostBookCall token n \<in> set (handleBookCall nextMentorCall_v isEligible_v booking env)"
    from post [OF this]
    show "isEligible_v" "\<not> booking" "\<exists>c. nextMentorCall_v = Some c \<and> n = number c"
      by blast+
  next
    assume "nextMentorCall_v = None \<or> \<not> isEligible_v \<or> booking"
    then show "handleBookCall nextMentorCall_v isEligible_v booking env = []" by (rule guard)
  next
    let ?v = "useMemo_body status_opt (map callNumber scheduledCalls)"
    assume "PostBookCall token n \<in> set (click_book status_opt scheduledCalls booking env)"
    then have "PostBookCall token n \<in> set (handleBookCall (nextMentorCall ?v) (isEligible ?v) booking env)"
      by (simp add: click_book_def Let_def)
    from post [OF this]
    show "isEligible ?v" "\<not> booking" "map_option number (nextMentorCall ?v) = Some n"
      by auto
  qed
qed

theorem book_call_guarded_witness:
  "PostBookCall ''token-1'' 1 \<in> set (click_book (Some stage1_ready_status) [] False online_env) \<and>
   isEligible (useMemo_body (Some stage1_ready_status) (map callNumber [])) \<and>
   handleBookCall None True False online_env = [] \<and>
   handleBookCall (nextMentorCall (useMemo_body (Some stage1_ready_status) [])) True True
     online_env = []"
proof -
  have h: "PostBookCall ''token-1'' 1
      \<in> set (click_book (Some stage1_ready_status) [] False online_env)"
    by (simp add: click_book_def handleBookCall_def online_env_def
      stage1_ready_status_def fresh_status_def calls_def
      includes_num_def allRequiredDone_def status_get_def
      useMemo_body_def selectNextCall_def Let_def)
  from book_call_guarded [of "''token-1''" 1 None True False online_env
      "Some stage1_ready_status" "[]"]
    book_call_guarded [of "''token-1''" 1
      "nextMentorCall (useMemo_body (Some stage1_ready_status) [])" True True online_env
      "Some stage1_ready_status" "[]"] h
  show ?thesis by simp
qed

end
